theory Spec2Isabelle
  imports Complex_Main "HOL-Library.AList" "HOL-Library.Char_ord"
begin

section \<open>Fillet eligibility: \<^verbatim>\<open>good_fillet_idxs\<close>\<close>

text \<open>
  Vertices are 2-D points. Python floats are idealised as real numbers throughout.
\<close>

type_synonym point = "real \<times> real"

text \<open>
  Python's \<^verbatim>\<open>round(x, ndigits)\<close> on a float: round half to even at the given decimal
  digit (a negative \<^verbatim>\<open>ndigits\<close> rounds to tens, hundreds, ...).
\<close>

definition round_half_even :: "real \<Rightarrow> int" where
  "round_half_even x =
     (let f = \<lfloor>x\<rfloor>; d = x - of_int f
      in if d < 1 / 2 then f else if 1 / 2 < d then f + 1 else if even f then f else f + 1)"

definition py_round :: "real \<Rightarrow> int \<Rightarrow> real" where
  "py_round x ndigits =
     (if 0 \<le> ndigits
      then of_int (round_half_even (x * 10 ^ nat ndigits)) / 10 ^ nat ndigits
      else of_int (round_half_even (x / 10 ^ nat (- ndigits))) * 10 ^ nat (- ndigits))"

text \<open>
  Modelled from the spec: \<^verbatim>\<open>Vector.get_distance\<close>, used by \<^verbatim>\<open>bad_fillet_idxs\<close>, is not
  part of the source file. The spec describes a "pairwise proximity check against
  neighbors within rounding precision", with "rounding to a fixed number of decimal
  digits before comparisons": the Euclidean distance of two vertices, rounded.
\<close>

definition get_distance :: "point \<Rightarrow> point \<Rightarrow> int \<Rightarrow> real" where
  "get_distance u v precision =
     py_round (sqrt ((fst u - fst v)\<^sup>2 + (snd u - snd v)\<^sup>2)) precision"

text \<open>
  Modelled from the spec: \<^verbatim>\<open>bad_fillet_idxs\<close> is imported from
  \<^verbatim>\<open>qiskit_metal.toolbox_python.utility_functions\<close>, which is not part of the source
  file. The spec (4.1, 8): per vertex, whether the two adjacent edge segments are long
  enough relative to the radius; a radius exceeding half the shortest adjacent edge makes
  the vertex bad. For closed shapes all vertices are candidates and the neighbours wrap
  around; for open shapes the first and the last vertex have no edge on one side, so only
  the inner vertices are checked.
\<close>

definition bad_fillet_idxs :: "point list \<Rightarrow> real \<Rightarrow> int \<Rightarrow> bool \<Rightarrow> nat list" where
  "bad_fillet_idxs coords fradius precision isclosed =
     (let n = length coords in
      if isclosed
      then filter (\<lambda>i. min (get_distance (coords ! ((i + n - 1) mod n)) (coords ! i) precision)
                           (get_distance (coords ! i) (coords ! ((i + 1) mod n)) precision)
                         < 2 * fradius) [0..<n]
      else filter (\<lambda>i. min (get_distance (coords ! (i - 1)) (coords ! i) precision)
                           (get_distance (coords ! i) (coords ! (i + 1)) precision)
                         < 2 * fradius) [1..<n - 1])"

text \<open>
  Modelled from the spec: \<^verbatim>\<open>toggle_numbers\<close> is imported from the same missing module.
  The spec: the bad indices are "inverted against the full index range to get good
  indices", that is, the indices \<open>0, ..., totlength - 1\<close> in order, without the given ones.
\<close>

definition toggle_numbers :: "nat list \<Rightarrow> nat \<Rightarrow> nat list" where
  "toggle_numbers numbers totlength = filter (\<lambda>i. i \<notin> set numbers) [0..<totlength]"

text \<open>The Python slice \<^verbatim>\<open>xs[1:-1]\<close>: the positions from 1 up to, not including, the last.\<close>

definition slice_1_m1 :: "'a list \<Rightarrow> 'a list" where
  "slice_1_m1 xs = drop 1 (take (length xs - 1) xs)"

definition good_fillet_idxs :: "point list \<Rightarrow> real \<Rightarrow> int \<Rightarrow> bool \<Rightarrow> nat list" where
  "good_fillet_idxs coords fradius precision isclosed =
     (if isclosed
      then toggle_numbers (bad_fillet_idxs coords fradius precision True) (length coords)
      else slice_1_m1
             (toggle_numbers (bad_fillet_idxs coords fradius precision False) (length coords)))"


text \<open>The axis-parallel square with lower left corner \<open>(x, y)\<close> and side \<open>s\<close>.\<close>

definition square :: "real \<Rightarrow> real \<Rightarrow> real \<Rightarrow> point list" where
  "square x y s = [(x, y), (x + s, y), (x + s, y + s), (x, y + s)]"

text \<open>The size of one unit in the last digit that \<open>py_round\<close> keeps.\<close>

definition round_unit :: "int \<Rightarrow> real" where
  "round_unit ndigits = (if 0 \<le> ndigits then 1 / 10 ^ nat ndigits else 10 ^ nat (- ndigits))"

section \<open>Names: \<^verbatim>\<open>get_clean_name\<close>\<close>

text \<open>The character classes of the two regular expressions.\<close>

definition is_digit :: "char \<Rightarrow> bool" where
  "is_digit c = (CHR ''0'' \<le> c \<and> c \<le> CHR ''9'')"

definition is_letter :: "char \<Rightarrow> bool" where
  "is_letter c = ((CHR ''a'' \<le> c \<and> c \<le> CHR ''z'') \<or> (CHR ''A'' \<le> c \<and> c \<le> CHR ''Z''))"

definition is_name_char :: "char \<Rightarrow> bool" where
  "is_name_char c = (is_digit c \<or> is_letter c \<or> c = CHR ''_'')"

definition is_name_start :: "char \<Rightarrow> bool" where
  "is_name_start c = (is_letter c \<or> c = CHR ''_'')"

text \<open>
  \<^verbatim>\<open>re.sub('[^0-9a-zA-Z_]', '', name)\<close> deletes every character outside the class;
  \<^verbatim>\<open>re.sub('^[^a-zA-Z_]+', '', name)\<close> deletes the longest leading run of characters that
  are neither a letter nor an underscore.
\<close>

definition get_clean_name :: "string \<Rightarrow> string" where
  "get_clean_name name =
     (let name1 = filter is_name_char name;
          name2 = dropWhile (\<lambda>c. \<not> is_name_start c) name1
      in name2)"

text \<open>A valid variable name, or the empty string.\<close>

definition clean :: "string \<Rightarrow> bool" where
  "clean s = (list_all is_name_char s \<and> (case s of [] \<Rightarrow> True | c # _ \<Rightarrow> is_name_start c))"

section \<open>The renderer \<^verbatim>\<open>QAnsysRenderer\<close>: data\<close>

type_synonym vec3 = "real \<times> real \<times> real"

text \<open>A handle of an object of the CAD session, as the modeler returns it.\<close>

type_synonym obj = nat

text \<open>
  The geometry of a row: a shapely \<^verbatim>\<open>Polygon\<close> (exterior ring and interior rings, each
  ring with its first vertex repeated at the end), a \<^verbatim>\<open>LineString\<close>, or anything else.
\<close>

datatype geom = Polygon "point list" "point list list" | LineString "point list" | OtherGeom

text \<open>A row of a QGeometry table (\<^verbatim>\<open>qgeom\<close>); \<open>elt_name\<close> is the column \<^verbatim>\<open>name\<close>.\<close>

record qgeom =
  component :: int
  elt_name :: string
  geometry :: geom
  chip :: string
  fillet :: real
  width :: real
  subtract :: bool
  helper :: bool

text \<open>
  Exceptions: those that Python raises in the renderer's own code, and \<open>External\<close> for
  whatever the CAD binding or the design raises.
\<close>

datatype exn =
  KeyError string | IndexError | ValueError | AttributeError | ZeroDivisionError | External nat

datatype tool = ToolObj obj | ToolName string

text \<open>The calls on the modeler handle (and on the objects it returns), with their arguments.\<close>

datatype call =
    Draw_rect_corner vec3 real real real
  | Rename_obj obj string
  | Draw_polyline "vec3 list" bool
  | Rename obj string
  | Fillet real "nat list" obj
  | Subtract string "tool list"
  | Sweep_along_path obj obj
  | Draw_box_center vec3 vec3 string "string option"
  | Draw_rect_center vec3 real real string
  | Assign_perfect_E "string list"

text \<open>The dictionary that \<^verbatim>\<open>design.get_chip_size\<close> returns.\<close>

record chip_size =
  center_x :: string
  center_y :: string
  center_z :: string
  size_x :: string
  size_y :: string
  size_z :: string
  sample_holder_top :: string
  sample_holder_bottom :: string

text \<open>
  What the renderer takes from outside the source file: the design, the helpers of
  other modules, pyEPR's \<^verbatim>\<open>parse_units\<close> (total: it returns a number for a number and
  for a parseable string), the iteration order of a Python set, and the modeler, whose
  answer to a call (an exception or a handle) may depend on the calls made before.
\<close>

record env =
  element_types :: "string list"
  tables :: "string \<rightharpoonup> qgeom list"
  get_unique_component_ids :: "string list \<Rightarrow> exn + (int list \<times> int)"
  get_chip_z :: "string \<Rightarrow> exn + string"
  chips :: "string \<rightharpoonup> (string \<rightharpoonup> string)"
  get_chip_size :: "string \<Rightarrow> exn + chip_size"
  PRECISION :: int
  parse_units :: "real \<Rightarrow> real"
  parse_units_str :: "string \<Rightarrow> real"
  is_rectangle :: "geom \<Rightarrow> bool"
  to_vec3D :: "point list \<Rightarrow> real \<Rightarrow> vec3 list"
  list_of_set :: "string set \<Rightarrow> string list"
  modeler :: "call list \<Rightarrow> call \<Rightarrow> exn + obj"

text \<open>
  The state: the two accumulators of the renderer object, and the calls issued so far to
  the CAD session (the failing call included). \<open>chip_subtract_dict\<close> is a Python
  dictionary, iterated in insertion order: an association list with distinct keys.
\<close>

record rstate =
  chip_subtract_dict :: "(string \<times> string set) list"
  assign_perfE :: "string list"
  calls :: "call list"

text \<open>A method: it returns a value or raises, and leaves a state behind in both cases.\<close>

type_synonym 'a action = "rstate \<Rightarrow> (exn + 'a) \<times> rstate"

definition return_a :: "'a \<Rightarrow> 'a action" where
  "return_a x = (\<lambda>s. (Inr x, s))"

definition bind_a :: "'a action \<Rightarrow> ('a \<Rightarrow> 'b action) \<Rightarrow> 'b action" where
  "bind_a m f = (\<lambda>s. case m s of (Inl e, s') \<Rightarrow> (Inl e, s') | (Inr x, s') \<Rightarrow> f x s')"

definition then_a :: "'a action \<Rightarrow> 'b action \<Rightarrow> 'b action" where
  "then_a m n = bind_a m (\<lambda>_. n)"

text \<open>A computation without effect on the state that may raise.\<close>

definition lift_a :: "exn + 'a \<Rightarrow> 'a action" where
  "lift_a r = (\<lambda>s. (r, s))"

definition get_a :: "rstate action" where
  "get_a = (\<lambda>s. (Inr s, s))"

definition modify_a :: "(rstate \<Rightarrow> rstate) \<Rightarrow> unit action" where
  "modify_a f = (\<lambda>s. (Inr (), f s))"

definition when_a :: "bool \<Rightarrow> unit action \<Rightarrow> unit action" where
  "when_a b m = (if b then m else return_a ())"

fun for_a :: "'a list \<Rightarrow> ('a \<Rightarrow> unit action) \<Rightarrow> unit action" where
  "for_a [] f = return_a ()"
| "for_a (x # xs) f = then_a (f x) (for_a xs f)"

text \<open>A call on the modeler: it is recorded, and the modeler answers.\<close>

definition modeler_call :: "env \<Rightarrow> call \<Rightarrow> obj action" where
  "modeler_call env c = (\<lambda>s. (modeler env (calls s) c, s\<lparr>calls := calls s @ [c]\<rparr>))"

section \<open>The renderer: helpers\<close>

text \<open>\<^verbatim>\<open>str\<close> of an integer.\<close>

fun str_nat :: "nat \<Rightarrow> string" where
  "str_nat n = (if n < 10 then [''0123456789'' ! n]
                else str_nat (n div 10) @ [''0123456789'' ! (n mod 10)])"

definition str_int :: "int \<Rightarrow> string" where
  "str_int i = (if i < 0 then ''-'' @ str_nat (nat (- i)) else str_nat (nat i))"

definition NAME_DELIM :: string where
  "NAME_DELIM = ''_''"

text \<open>
  The attributes \<^verbatim>\<open>exterior.coords\<close>, \<^verbatim>\<open>interiors\<close> and \<^verbatim>\<open>coords\<close> of a shapely geometry;
  a missing attribute raises.
\<close>

definition exterior :: "geom \<Rightarrow> exn + point list" where
  "exterior g = (case g of Polygon ext ints \<Rightarrow> Inr ext | _ \<Rightarrow> Inl AttributeError)"

definition interiors :: "geom \<Rightarrow> exn + point list list" where
  "interiors g = (case g of Polygon ext ints \<Rightarrow> Inr ints | _ \<Rightarrow> Inl AttributeError)"

definition line_coords :: "geom \<Rightarrow> exn + point list" where
  "line_coords g = (case g of LineString cs \<Rightarrow> Inr cs | _ \<Rightarrow> Inl AttributeError)"

text \<open>
  \<^verbatim>\<open>x_min, y_min, x_max, y_max = qc_shapely.bounds\<close>: the bounding box of the vertices;
  an empty geometry has the empty tuple as its bounds, and unpacking it raises.
\<close>

definition bounds :: "geom \<Rightarrow> exn + (real \<times> real \<times> real \<times> real)" where
  "bounds g =
     (case (case g of Polygon ext ints \<Rightarrow> ext | LineString cs \<Rightarrow> cs | OtherGeom \<Rightarrow> []) of
        [] \<Rightarrow> Inl ValueError
      | p # ps \<Rightarrow> Inr (fold min (map fst ps) (fst p), fold min (map snd ps) (snd p),
                       fold max (map fst ps) (fst p), fold max (map snd ps) (snd p)))"

text \<open>\<^verbatim>\<open>parse_units\<close> on a list of 2-D points.\<close>

definition parse_points :: "env \<Rightarrow> point list \<Rightarrow> point list" where
  "parse_points env pts = map (\<lambda>(x, y). (parse_units env x, parse_units env y)) pts"

text \<open>\<^verbatim>\<open>points[i]\<close>, which raises out of range.\<close>

definition item :: "'a list \<Rightarrow> nat \<Rightarrow> exn + 'a" where
  "item xs i = (if i < length xs then Inr (xs ! i) else Inl IndexError)"

text \<open>
  The end of both \<^verbatim>\<open>render_element_poly\<close> and \<^verbatim>\<open>render_element_path\<close>: enter the chip
  into \<^verbatim>\<open>chip_subtract_dict\<close> and, for a row to subtract, the name into the chip's set.
\<close>

definition input_chip_info :: "qgeom \<Rightarrow> string \<Rightarrow> unit action" where
  "input_chip_info qgeom name =
     then_a
       (modify_a (\<lambda>s. if map_of (chip_subtract_dict s) (chip qgeom) = None
                       then s\<lparr>chip_subtract_dict :=
                                AList.update (chip qgeom) {} (chip_subtract_dict s)\<rparr>
                       else s))
       (when_a (subtract qgeom)
          (modify_a (\<lambda>s. s\<lparr>chip_subtract_dict :=
                              AList.map_entry (chip qgeom) (insert name) (chip_subtract_dict s)\<rparr>)))"

definition append_perfE :: "string \<Rightarrow> unit action" where
  "append_perfE name = modify_a (\<lambda>s. s\<lparr>assign_perfE := assign_perfE s @ [name]\<rparr>)"

text \<open>The guarded call of \<^verbatim>\<open>_fillet\<close>, the same in both methods but for \<^verbatim>\<open>isclosed\<close>.\<close>

definition fillet_step :: "env \<Rightarrow> real \<Rightarrow> point list \<Rightarrow> bool \<Rightarrow> obj \<Rightarrow> unit action" where
  "fillet_step env qc_fillet points isclosed poly_ansys =
     (if 0 < qc_fillet
      then (let qc_fillet' = parse_units env qc_fillet;
                idxs_to_fillet = good_fillet_idxs points qc_fillet' (PRECISION env) isclosed
            in if idxs_to_fillet \<noteq> []
               then then_a (modeler_call env (Fillet qc_fillet' idxs_to_fillet poly_ansys))
                           (return_a ())
               else return_a ())
      else return_a ())"

section \<open>The renderer: methods\<close>

definition render_element_poly :: "env \<Rightarrow> qgeom \<Rightarrow> unit action" where
  "render_element_poly env qgeom =
     (let qc_name = ''Q'' @ str_int (component qgeom);
          qc_elt = get_clean_name (elt_name qgeom);
          qc_shapely = geometry qgeom
      in bind_a (lift_a (get_chip_z env (chip qgeom))) (\<lambda>z.
         let qc_chip_z = parse_units_str env z;
             qc_fillet = py_round (fillet qgeom) 7;
             name = qc_name @ NAME_DELIM @ qc_elt
         in bind_a (lift_a (exterior qc_shapely)) (\<lambda>ext.
         let points = parse_points env ext;
             points_3d = to_vec3D env points qc_chip_z
         in bind_a
              (if is_rectangle env qc_shapely
               then bind_a (lift_a (bounds qc_shapely)) (\<lambda>(x_min, y_min, x_max, y_max).
                    bind_a (modeler_call env
                              (Draw_rect_corner
                                 (parse_units env x_min, parse_units env y_min,
                                  parse_units env qc_chip_z)
                                 (parse_units env (x_max - x_min))
                                 (parse_units env (y_max - y_min))
                                 (parse_units env qc_chip_z))) (\<lambda>poly_ansys.
                    then_a (modeler_call env (Rename_obj poly_ansys name))
                           (return_a poly_ansys)))
               else bind_a (modeler_call env (Draw_polyline (butlast points_3d) True))
                      (\<lambda>poly_ansys. modeler_call env (Rename poly_ansys name)))
              (\<lambda>poly_ansys.
         then_a (fillet_step env qc_fillet points True poly_ansys)
        (then_a (bind_a (lift_a (interiors qc_shapely)) (\<lambda>ints.
                 for_a ints (\<lambda>x.
                   let interior_points_3d = to_vec3D env (parse_points env x) qc_chip_z
                   in bind_a (modeler_call env (Draw_polyline (butlast interior_points_3d) True))
                        (\<lambda>inner_shape.
                      then_a (modeler_call env (Subtract name [ToolObj inner_shape]))
                             (return_a ())))))
        (then_a (input_chip_info qgeom name)
                (when_a (\<not> subtract qgeom \<and> \<not> helper qgeom) (append_perfE name))))))))"

definition render_element_path :: "env \<Rightarrow> qgeom \<Rightarrow> unit action" where
  "render_element_path env qgeom =
     (let qc_name = ''Q'' @ str_int (component qgeom);
          qc_elt = get_clean_name (elt_name qgeom);
          qc_shapely = geometry qgeom
      in bind_a (lift_a (get_chip_z env (chip qgeom))) (\<lambda>z.
         let qc_chip_z = parse_units_str env z;
             qc_fillet = py_round (fillet qgeom) 7;
             name = qc_name @ NAME_DELIM @ qc_elt;
             qc_width = parse_units env (width qgeom)
         in bind_a (lift_a (line_coords qc_shapely)) (\<lambda>cs.
         let points = parse_points env cs;
             points_3d = to_vec3D env points qc_chip_z
         in bind_a (modeler_call env (Draw_polyline points_3d False)) (\<lambda>poly0.
            bind_a (modeler_call env (Rename poly0 name)) (\<lambda>poly_ansys.
         then_a (fillet_step env qc_fillet points False poly_ansys)
        (then_a (when_a (qc_width \<noteq> 0)
                  (bind_a (lift_a (item points 0)) (\<lambda>(x0, y0).
                   bind_a (lift_a (item points 1)) (\<lambda>(x1, y1).
                   let vlen = sqrt ((x1 - x0)\<^sup>2 + (y1 - y0)\<^sup>2)
                   in bind_a (lift_a (if 2 * vlen = 0 then Inl ZeroDivisionError
                                      else Inr (qc_width / (2 * vlen)))) (\<lambda>k.
                   let p0 = (x0 + k * (y0 - y1), y0 + k * (x1 - x0), 0);
                       p1 = (x0 + k * (y1 - y0), y0 + k * (x0 - x1), 0)
                   in bind_a (modeler_call env (Draw_polyline [p0, p1] False)) (\<lambda>shortline.
                      then_a (modeler_call env (Sweep_along_path shortline poly_ansys))
                             (return_a ())))))))
        (then_a (input_chip_info qgeom name)
                (when_a (width qgeom \<noteq> 0 \<and> \<not> subtract qgeom \<and> \<not> helper qgeom)
                   (append_perfE name)))))))))"

definition render_element :: "env \<Rightarrow> qgeom \<Rightarrow> unit action" where
  "render_element env qgeom =
     (case geometry qgeom of
        Polygon ext ints \<Rightarrow> render_element_poly env qgeom
      | LineString cs \<Rightarrow> render_element_path env qgeom
      | OtherGeom \<Rightarrow> return_a ())"

definition render_components :: "env \<Rightarrow> string \<Rightarrow> string list option \<Rightarrow> unit action" where
  "render_components env table_type selection =
     (let selection' = (case selection of None \<Rightarrow> [] | Some l \<Rightarrow> l)
      in bind_a (lift_a (case tables env table_type of
                           None \<Rightarrow> Inl (KeyError table_type) | Some t \<Rightarrow> Inr t)) (\<lambda>table.
         bind_a (if selection' \<noteq> []
                 then bind_a (lift_a (get_unique_component_ids env selection'))
                        (\<lambda>(qcomp_ids, case').
                           return_a (if case' \<noteq> 1
                                     then filter (\<lambda>row. component row \<in> set qcomp_ids) table
                                     else table))
                 else return_a table) (\<lambda>table'.
         for_a table' (render_element env))))"

definition render_tables :: "env \<Rightarrow> string list option \<Rightarrow> unit action" where
  "render_tables env selection =
     for_a (element_types env) (\<lambda>table_type. render_components env table_type selection)"

definition render_chips :: "env \<Rightarrow> unit action" where
  "render_chips env =
     bind_a get_a (\<lambda>s0.
     for_a (map fst (chip_subtract_dict s0)) (\<lambda>chip_name.
       bind_a (lift_a (case chips env chip_name of
                         None \<Rightarrow> Inl (KeyError chip_name) | Some ops \<Rightarrow> Inr ops)) (\<lambda>ops.
       bind_a (lift_a (get_chip_size env chip_name)) (\<lambda>p.
       let origin = (parse_units_str env (center_x p), parse_units_str env (center_y p),
                     parse_units_str env (center_z p));
           size = (parse_units_str env (size_x p), parse_units_str env (size_y p),
                   parse_units_str env (size_z p));
           vac_height = (parse_units_str env (sample_holder_top p),
                         parse_units_str env (sample_holder_bottom p))
       in then_a (when_a (chip_name = ''main'')
                    (then_a (modeler_call env
                               (Draw_box_center
                                  (fst origin, fst (snd origin),
                                   (fst vac_height - snd vac_height) / 2)
                                  (fst size, fst (snd size), fst vac_height + snd vac_height)
                                  ''sample_holder'' None))
                            (return_a ())))
         (then_a (modeler_call env
                    (Draw_rect_center origin (fst size) (fst (snd size))
                       (chip_name @ ''_plane'')))
         (then_a (bind_a get_a (\<lambda>s.
                    when_a (case map_of (chip_subtract_dict s) chip_name of
                              None \<Rightarrow> False | Some shapes \<Rightarrow> shapes \<noteq> {})
                      (append_perfE (chip_name @ ''_plane''))))
         (bind_a (lift_a (case ops ''material'' of
                            None \<Rightarrow> Inl (KeyError ''material'') | Some m \<Rightarrow> Inr m)) (\<lambda>material.
          then_a (modeler_call env
                    (Draw_box_center
                       (fst origin, fst (snd origin), snd (snd size) / 2)
                       (fst size, fst (snd size), - snd (snd size))
                       chip_name (Some material)))
                 (return_a ())))))))))"

definition subtract_from_ground :: "env \<Rightarrow> unit action" where
  "subtract_from_ground env =
     bind_a get_a (\<lambda>s0.
     for_a (chip_subtract_dict s0) (\<lambda>(chip, shapes).
       when_a (shapes \<noteq> {})
         (then_a (modeler_call env
                    (Subtract (chip @ ''_plane'') (map ToolName (list_of_set env shapes))))
                 (return_a ()))))"

definition metallize :: "env \<Rightarrow> unit action" where
  "metallize env =
     bind_a get_a (\<lambda>s.
     then_a (modeler_call env (Assign_perfect_E (assign_perfE s))) (return_a ()))"

definition render_design :: "env \<Rightarrow> string list option \<Rightarrow> unit action" where
  "render_design env selection =
     then_a (modify_a (\<lambda>s. s\<lparr>chip_subtract_dict := [], assign_perfE := []\<rparr>))
    (then_a (render_tables env selection)
    (then_a (render_chips env)
    (then_a (subtract_from_ground env)
            (metallize env))))"

section \<open>Traces of modeler calls\<close>

text \<open>
  The calls that were issued between two states.
\<close>

definition new_calls :: "rstate \<Rightarrow> rstate \<Rightarrow> call list" where
  "new_calls s s' = drop (length (calls s)) (calls s')"

text \<open>
  Every call that the method issues satisfies \<open>P\<close>; the calls made before are kept.
\<close>

definition issues :: "(call \<Rightarrow> bool) \<Rightarrow> 'a action \<Rightarrow> bool" where
  "issues P m = (\<forall>s. \<exists>new. calls (snd (m s)) = calls s @ new \<and> list_all P new)"

text \<open>
  An exception of the modeler surfaces unchanged: if the modeler answers a call of the
  method with the exception \<open>e\<close>, then that call is the last one the method makes, and the
  method raises \<open>e\<close>.
\<close>

definition propagates :: "env \<Rightarrow> 'a action \<Rightarrow> bool" where
  "propagates env m =
     (\<forall>s. \<exists>new. calls (snd (m s)) = calls s @ new \<and>
        (\<forall>pre c post e. new = pre @ c # post \<and> modeler env (calls s @ pre) c = Inl e
            \<longrightarrow> post = [] \<and> fst (m s) = Inl e))"

text \<open>
  The vertices that the row hands to \<open>good_fillet_idxs\<close>, and the \<^verbatim>\<open>isclosed\<close> flag.
\<close>

definition row_points :: "env \<Rightarrow> qgeom \<Rightarrow> point list" where
  "row_points env q =
     (case geometry q of Polygon ext ints \<Rightarrow> parse_points env ext
      | LineString cs \<Rightarrow> parse_points env cs | OtherGeom \<Rightarrow> [])"

definition row_closed :: "qgeom \<Rightarrow> bool" where
  "row_closed q = (case geometry q of Polygon ext ints \<Rightarrow> True | _ \<Rightarrow> False)"

text \<open>
  A call of \<^verbatim>\<open>_fillet\<close> for the row is guarded: the rounded radius of the row is positive,
  and the indices are the non-empty result of \<open>good_fillet_idxs\<close>.
\<close>

definition fillet_ok :: "env \<Rightarrow> qgeom \<Rightarrow> call \<Rightarrow> bool" where
  "fillet_ok env q c =
     (case c of
        Fillet rad idxs ob \<Rightarrow>
          0 < py_round (fillet q) 7 \<and> rad = parse_units env (py_round (fillet q) 7) \<and>
          idxs = good_fillet_idxs (row_points env q) rad (PRECISION env) (row_closed q) \<and>
          idxs \<noteq> []
      | _ \<Rightarrow> True)"

text \<open>
  The calls of the four phases of \<^verbatim>\<open>render_design\<close>: drawing the elements of the components
  (a subtraction there removes one interior ring, an object, from its polygon); drawing
  the chips; subtracting named shapes from a ground plane \<^verbatim>\<open>chip + '_plane'\<close>; metallizing.
\<close>

definition is_element_call :: "call \<Rightarrow> bool" where
  "is_element_call c =
     (case c of
        Draw_rect_corner pos xs ys zs \<Rightarrow> True
      | Rename_obj ob name \<Rightarrow> True
      | Draw_polyline pts cl \<Rightarrow> True
      | Rename ob name \<Rightarrow> True
      | Fillet rad idxs ob \<Rightarrow> True
      | Subtract name tools \<Rightarrow> (case tools of [ToolObj ob] \<Rightarrow> True | _ \<Rightarrow> False)
      | Sweep_along_path line ob \<Rightarrow> True
      | _ \<Rightarrow> False)"

definition is_chip_call :: "call \<Rightarrow> bool" where
  "is_chip_call c =
     (case c of Draw_box_center pos dims name material \<Rightarrow> True
      | Draw_rect_center pos xs ys name \<Rightarrow> True
      | _ \<Rightarrow> False)"

definition is_ground_subtract :: "call \<Rightarrow> bool" where
  "is_ground_subtract c =
     (case c of
        Subtract name tools \<Rightarrow>
          drop (length name - 6) name = ''_plane'' \<and>
          list_all (\<lambda>t. case t of ToolName n \<Rightarrow> True | ToolObj ob \<Rightarrow> False) tools
      | _ \<Rightarrow> False)"

definition is_metallize :: "call \<Rightarrow> bool" where
  "is_metallize c = (case c of Assign_perfect_E names \<Rightarrow> True | _ \<Rightarrow> False)"

text \<open>
  The method returns normally from \<open>s\<close> in \<open>s'\<close>, having issued exactly the calls \<open>t\<close>.
\<close>

definition completes :: "unit action \<Rightarrow> rstate \<Rightarrow> call list \<Rightarrow> rstate \<Rightarrow> bool" where
  "completes m s t s' = (m s = (Inr (), s') \<and> calls s' = calls s @ t)"

section \<open>An example design\<close>

text \<open>
  A design with one component: a unit square polygon with fillet radius \<open>1/4\<close>, to be
  subtracted from the ground plane of the chip \<^verbatim>\<open>main\<close>; a modeler that numbers its objects.
\<close>

definition example_row :: qgeom where
  "example_row =
     \<lparr>component = 1, elt_name = ''pad'',
      geometry = Polygon [(0, 0), (1, 0), (1, 1), (0, 1), (0, 0)] [],
      chip = ''main'', fillet = 1 / 4, width = 0, subtract = True, helper = False\<rparr>"

definition example_env :: env where
  "example_env =
     \<lparr>element_types = [''poly''],
      tables = [''poly'' \<mapsto> [example_row]],
      get_unique_component_ids = (\<lambda>sel. Inr ([1], 0)),
      get_chip_z = (\<lambda>c. Inr ''0''),
      chips = [''main'' \<mapsto> [''material'' \<mapsto> ''silicon'']],
      get_chip_size = (\<lambda>c. Inr \<lparr>center_x = ''0'', center_y = ''0'', center_z = ''0'',
                                    size_x = ''9'', size_y = ''9'', size_z = ''9'',
                                    sample_holder_top = ''9'', sample_holder_bottom = ''9''\<rparr>),
      PRECISION = 9,
      parse_units = (\<lambda>x. x),
      parse_units_str = (\<lambda>s. if s = ''9'' then 9 else 0),
      is_rectangle = (\<lambda>g. False),
      to_vec3D = (\<lambda>pts z. map (\<lambda>(x, y). (x, y, z)) pts),
      list_of_set = (\<lambda>S. if S = {''Q1_pad''} then [''Q1_pad''] else []),
      modeler = (\<lambda>h c. Inr (length h))\<rparr>"

definition empty_state :: rstate where
  "empty_state = \<lparr>chip_subtract_dict = [], assign_perfE = [], calls = []\<rparr>"

text \<open>
  The same design with a modeler that raises on its third call.
\<close>

definition failing_env :: env where
  "failing_env =
     example_env\<lparr>modeler := (\<lambda>h c. if length h = 2 then Inl (External 7) else Inr (length h))\<rparr>"

text \<open>
  The state after rendering the example design.
\<close>

definition example_final :: rstate where
  "example_final =
     \<lparr>chip_subtract_dict = [(''main'', {''Q1_pad''})], assign_perfE = [''main_plane''],
      calls = [Draw_polyline [(0, 0, 0), (1, 0, 0), (1, 1, 0), (0, 1, 0)] True,
               Rename 0 ''Q1_pad'',
               Fillet (1 / 4) [1, 2, 3] 1,
               Draw_box_center (0, 0, 0) (9, 9, 18) ''sample_holder'' None,
               Draw_rect_center (0, 0, 0) 9 9 ''main_plane'',
               Draw_box_center (0, 0, 9 / 2) (9, 9, - 9) ''main'' (Some ''silicon''),
               Subtract ''main_plane'' [ToolName ''Q1_pad''],
               Assign_perfect_E [''main_plane'']]\<rparr>"

section \<open>Properties of the fillet filter\<close>

lemma toggle_numbers_sorted: "sorted (toggle_numbers numbers n) \<and> distinct (toggle_numbers numbers n)"
  by (simp add: toggle_numbers_def sorted_wrt_filter)

lemma set_toggle_numbers: "set (toggle_numbers numbers n) = {0..<n} - set numbers"
  by (auto simp: toggle_numbers_def)

lemma slice_1_m1_eq: "slice_1_m1 xs = butlast (tl xs)"
  by (simp add: slice_1_m1_def drop_take butlast_conv_take drop_Suc)

lemma set_butlast_distinct: "distinct ys \<Longrightarrow> ys \<noteq> [] \<Longrightarrow> set (butlast ys) = set ys - {last ys}"
proof -
  assume d: "distinct ys" and ne: "ys \<noteq> []"
  have eq: "ys = butlast ys @ [last ys]" using ne by simp
  have "distinct (butlast ys @ [last ys])" using d eq by simp
  then have "last ys \<notin> set (butlast ys)" by simp
  moreover have "set ys = set (butlast ys) \<union> {last ys}"
    using eq by (metis list.simps(15) set_append list.set(1))
  ultimately show ?thesis by auto
qed

lemma set_slice_distinct:
  assumes "distinct xs"
  shows "set (slice_1_m1 xs) = set xs - {hd xs, last xs}"
proof (cases xs)
  case Nil
  then show ?thesis by (simp add: slice_1_m1_eq)
next
  case (Cons x ys)
  show ?thesis
  proof (cases "ys = []")
    case True
    with Cons show ?thesis by (simp add: slice_1_m1_eq)
  next
    case False
    have "distinct ys" "x \<notin> set ys" using assms Cons by simp_all
    then show ?thesis
      using False Cons set_butlast_distinct [of ys] by (auto simp: slice_1_m1_eq)
  qed
qed

lemma hd_sorted_least:
  "sorted xs \<Longrightarrow> x \<in> set xs \<Longrightarrow> \<forall>y\<in>set xs. x \<le> y \<Longrightarrow> hd xs = (x::nat)"
  by (cases xs) (auto simp: dual_order.antisym)

lemma last_sorted_greatest:
  "sorted xs \<Longrightarrow> x \<in> set xs \<Longrightarrow> \<forall>y\<in>set xs. y \<le> x \<Longrightarrow> last xs = (x::nat)"
proof (induction xs)
  case Nil
  then show ?case by simp
next
  case (Cons a xs)
  then show ?case by (cases "xs = []") (auto simp: dual_order.antisym)
qed

lemma slice_toggle_no_endpoints:
  "0 \<notin> set (slice_1_m1 (toggle_numbers bad n)) \<and> n - 1 \<notin> set (slice_1_m1 (toggle_numbers bad n))"
proof -
  let ?t = "toggle_numbers bad n"
  have sd: "sorted ?t" "distinct ?t" using toggle_numbers_sorted by simp_all
  have s: "set (slice_1_m1 ?t) = set ?t - {hd ?t, last ?t}" using set_slice_distinct sd by blast
  have "0 \<in> set ?t \<Longrightarrow> hd ?t = 0" using hd_sorted_least [OF sd(1)] by simp
  moreover have "\<forall>y\<in>set ?t. y \<le> n - 1" by (auto simp: set_toggle_numbers)
  then have "n - 1 \<in> set ?t \<Longrightarrow> last ?t = n - 1"
    using last_sorted_greatest [OF sd(1), of "n - 1"] by blast
  ultimately show ?thesis using s by auto
qed

text \<open>
  C1. For an open polyline (\<open>isclosed = False\<close>), whatever the vertices, the fillet
  radius and the precision, the result of \<open>good_fillet_idxs\<close> contains neither index 0
  nor the last index \<open>len(coords) - 1\<close>. (By \<open>slice_toggle_no_endpoints\<close> this does not
  depend on which indices the proximity check reports.)
\<close>

theorem good_fillet_idxs_open_no_endpoints: "0 \<notin> set (good_fillet_idxs coords fradius precision False) \<and>
   length coords - 1 \<notin> set (good_fillet_idxs coords fradius precision False)"
  using slice_toggle_no_endpoints by (simp add: good_fillet_idxs_def)

lemma bad_open_inner: "set (bad_fillet_idxs coords r p False) \<subseteq> {1..<length coords - 1}"
  by (auto simp: bad_fillet_idxs_def Let_def)

lemma slice_toggle_inner:
  assumes "set bad \<subseteq> {1..<n - 1}"
  shows "set (slice_1_m1 (toggle_numbers bad n)) = {0..<n} - set bad - {0, n - 1}"
proof -
  let ?t = "toggle_numbers bad n"
  have sd: "sorted ?t" "distinct ?t" using toggle_numbers_sorted by simp_all
  have s: "set (slice_1_m1 ?t) = set ?t - {hd ?t, last ?t}" using set_slice_distinct sd by blast
  show ?thesis
  proof (cases "n = 0")
    case True
    then show ?thesis using s by (simp add: set_toggle_numbers)
  next
    case False
    have 0: "0 \<in> set ?t" using False assms by (auto simp: set_toggle_numbers)
    have l: "n - 1 \<in> set ?t" using False assms by (auto simp: set_toggle_numbers)
    have "hd ?t = 0" using hd_sorted_least [OF sd(1) 0] by simp
    moreover have "\<forall>y\<in>set ?t. y \<le> n - 1" by (auto simp: set_toggle_numbers)
    then have "last ?t = n - 1"
      using last_sorted_greatest [OF sd(1) l] by blast
    ultimately show ?thesis using s by (simp add: set_toggle_numbers)
  qed
qed

text \<open>
  C2. For every vertex list, radius, precision and \<open>isclosed\<close> flag, the indices returned by
  \<open>good_fillet_idxs\<close> are the complement, within \<open>0 .. len(coords) - 1\<close>, of the indices
  that \<open>bad_fillet_idxs\<close> reports, less the two end points when the shape is open.
\<close>

theorem good_fillet_idxs_complement: "set (good_fillet_idxs coords r p isclosed) =
   {0..<length coords} - set (bad_fillet_idxs coords r p isclosed)
     - (if isclosed then {} else {0, length coords - 1})"
  using slice_toggle_inner [OF bad_open_inner]
  by (simp add: good_fillet_idxs_def set_toggle_numbers)

lemma round_half_even_bounds:
  "x - 1 / 2 \<le> of_int (round_half_even x) \<and> of_int (round_half_even x) \<le> x + 1 / 2"
proof -
  have gen: "of_int f \<le> x \<Longrightarrow> x < of_int f + 1 \<Longrightarrow>
      x - 1 / 2 \<le> of_int (if x - of_int f < 1 / 2 then f else if 1 / 2 < x - of_int f then f + 1
                             else if even f then f else f + 1) \<and>
      of_int (if x - of_int f < 1 / 2 then f else if 1 / 2 < x - of_int f then f + 1
                             else if even f then f else f + 1) \<le> x + 1 / 2" for f :: int
    by auto
  have "of_int \<lfloor>x\<rfloor> \<le> x" "x < of_int \<lfloor>x\<rfloor> + 1" by linarith+
  from gen [OF this] show ?thesis unfolding round_half_even_def Let_def .
qed

lemma py_round_lower: "x - round_unit p / 2 \<le> py_round x p"
proof (cases "0 \<le> p")
  case True
  define k :: real where "k = 10 ^ nat p"
  have k: "0 < k" by (simp add: k_def)
  have pr: "py_round x p = of_int (round_half_even (x * k)) / k"
    using True by (simp add: py_round_def k_def)
  have ru: "round_unit p = 1 / k" using True by (simp add: round_unit_def k_def)
  have "x * k - 1 / 2 \<le> of_int (round_half_even (x * k))" using round_half_even_bounds by blast
  then have "(x * k - 1 / 2) / k \<le> of_int (round_half_even (x * k)) / k"
    using k by (simp add: divide_right_mono)
  moreover have "(x * k - 1 / 2) / k = x - (1 / k) / 2" using k by (simp add: field_simps)
  ultimately show ?thesis unfolding pr ru by simp
next
  case False
  define k :: real where "k = 10 ^ nat (- p)"
  have k: "0 < k" by (simp add: k_def)
  have pr: "py_round x p = of_int (round_half_even (x / k)) * k"
    using False by (simp add: py_round_def k_def)
  have ru: "round_unit p = k" using False by (simp add: round_unit_def k_def)
  have "x / k - 1 / 2 \<le> of_int (round_half_even (x / k))" using round_half_even_bounds by blast
  then have "(x / k - 1 / 2) * k \<le> of_int (round_half_even (x / k)) * k"
    using k by (simp add: mult_right_mono)
  moreover have "(x / k - 1 / 2) * k = x - k / 2" using k by (simp add: field_simps)
  ultimately show ?thesis unfolding pr ru by simp
qed

lemma round_unit_pos: "0 < round_unit p"
  by (simp add: round_unit_def)

lemma side_ok:
  assumes "2 * r + round_unit p / 2 \<le> s"
  shows "2 * r \<le> py_round \<bar>s\<bar> p"
proof -
  have "\<bar>s\<bar> - round_unit p / 2 \<le> py_round \<bar>s\<bar> p" by (rule py_round_lower)
  then show ?thesis using assms by linarith
qed

lemma get_distance_square:
  "get_distance (x, y) (x + s, y) p = py_round \<bar>s\<bar> p"
  "get_distance (x + s, y) (x + s, y + s) p = py_round \<bar>s\<bar> p"
  "get_distance (x + s, y + s) (x, y + s) p = py_round \<bar>s\<bar> p"
  "get_distance (x, y + s) (x, y) p = py_round \<bar>s\<bar> p"
  by (simp_all add: get_distance_def)

lemma upt4: "[0..<4] = [0, 1, 2, 3]"
  by (simp add: upt_rec)

lemma bad_square:
  assumes "2 * r + round_unit p / 2 \<le> s"
  shows "bad_fillet_idxs (square x y s) r p True = []"
  using side_ok [OF assms]
  by (simp add: bad_fillet_idxs_def square_def upt4 get_distance_square)

text \<open>
  C5. For a closed square (\<open>isclosed = True\<close>) whose side is much larger than twice the
  fillet radius, \<open>good_fillet_idxs\<close> marks no vertex as bad: it returns the full index
  range. "Much larger" is taken as: larger by at least half a unit of the last digit that
  the rounding keeps.
\<close>

theorem good_fillet_idxs_square:
  assumes "2 * r + round_unit p / 2 \<le> s"
  shows "good_fillet_idxs (square x y s) r p True = [0..<length (square x y s)]"
  using bad_square [OF assms, of x y]
  by (simp add: good_fillet_idxs_def toggle_numbers_def)






theorem good_fillet_idxs_square_witness:
  "2 * 1 + round_unit 9 / 2 \<le> (10::real) \<and> good_fillet_idxs (square 0 0 10) 1 9 True = [0, 1, 2, 3]"
  using good_fillet_idxs_square [of 1 9 10 0 0] by (simp add: round_unit_def square_def upt4)


section \<open>Properties of \<^verbatim>\<open>get_clean_name\<close>\<close>

lemma gcn_clean: "clean (get_clean_name s)"
proof -
  let ?f = "filter is_name_char s"
  let ?d = "dropWhile (\<lambda>c. \<not> is_name_start c) ?f"
  have "set ?d \<subseteq> set ?f" by (auto dest: set_dropWhileD)
  then have a: "list_all is_name_char ?d" by (auto simp: list_all_iff)
  have b: "?d \<noteq> [] \<Longrightarrow> is_name_start (hd ?d)" using hd_dropWhile [of "\<lambda>c. \<not> is_name_start c" ?f] by simp
  have c: "case ?d of [] \<Rightarrow> True | c # _ \<Rightarrow> is_name_start c"
    using b by (simp only: list.case_eq_if) simp
  show ?thesis unfolding clean_def get_clean_name_def Let_def
    using a c by (rule conjI)
qed

lemma gcn_id: "clean s \<Longrightarrow> get_clean_name s = s"
  unfolding clean_def get_clean_name_def Let_def
  by (cases s) (auto simp: list_all_iff filter_id_conv)

text \<open>
  C8. For every input string, \<open>get_clean_name\<close> returns a string of letters, digits and
  underscores only whose first character, if there is one, is a letter or an underscore;
  a string already of that form is returned unchanged.
\<close>

theorem get_clean_name_clean: "clean (get_clean_name s) \<and> (clean s \<longrightarrow> get_clean_name s = s)"
  using gcn_clean gcn_id by blast

theorem get_clean_name_clean_witness:
  "clean ''cpw_1'' \<and> get_clean_name ''cpw_1'' = ''cpw_1'' \<and> clean (get_clean_name ''cpw_1'')"
  using get_clean_name_clean [of "''cpw_1''"]
  by (simp add: clean_def is_name_char_def is_name_start_def is_digit_def is_letter_def)

section \<open>Properties of the renderer\<close>

lemma issuesI: "(\<And>s. \<exists>new. calls (snd (m s)) = calls s @ new \<and> list_all P new) \<Longrightarrow> issues P m"
  by (simp add: issues_def)

lemma issuesD: "issues P m \<Longrightarrow> \<exists>new. calls (snd (m s)) = calls s @ new \<and> list_all P new"
  by (simp add: issues_def)

lemma issues_return: "issues P (return_a x)"
  by (simp add: issues_def return_a_def)

lemma issues_lift: "issues P (lift_a r)"
  by (simp add: issues_def lift_a_def)

lemma issues_modify: "(\<And>s. calls (f s) = calls s) \<Longrightarrow> issues P (modify_a f)"
  by (simp add: issues_def modify_a_def)

lemma issues_modeler_call: "P c \<Longrightarrow> issues P (modeler_call env c)"
  by (simp add: issues_def modeler_call_def)

lemma issues_bind:
  assumes m: "issues P m" and f: "\<And>x. issues P (f x)"
  shows "issues P (bind_a m f)"
proof (rule issuesI)
  fix s
  obtain r s1 where ms: "m s = (r, s1)" by (cases "m s")
  from issuesD [OF m, of s] ms obtain n1 where n1: "calls s1 = calls s @ n1" "list_all P n1"
    by auto
  show "\<exists>new. calls (snd (bind_a m f s)) = calls s @ new \<and> list_all P new"
  proof (cases r)
    case (Inl e)
    then show ?thesis using ms n1 by (simp add: bind_a_def)
  next
    case (Inr x)
    from issuesD [OF f, of x s1] obtain n2 where
      n2: "calls (snd (f x s1)) = calls s1 @ n2" "list_all P n2" by auto
    have "calls (snd (bind_a m f s)) = calls s @ (n1 @ n2)"
      using ms Inr n1 n2 by (simp add: bind_a_def)
    moreover have "list_all P (n1 @ n2)" using n1 n2 by simp
    ultimately show ?thesis by blast
  qed
qed

lemma issues_get_bind: "(\<And>x. issues P (f x)) \<Longrightarrow> issues P (bind_a get_a f)"
  by (simp add: issues_def bind_a_def get_a_def)

lemma issues_then: "issues P m \<Longrightarrow> issues P n \<Longrightarrow> issues P (then_a m n)"
  by (simp add: then_a_def issues_bind)

lemma issues_when: "(b \<Longrightarrow> issues P m) \<Longrightarrow> issues P (when_a b m)"
  by (simp add: when_a_def issues_return)

lemma issues_for: "(\<And>x. issues P (f x)) \<Longrightarrow> issues P (for_a xs f)"
  by (induction xs) (simp_all add: issues_return issues_then)

lemma issues_mono: "issues P m \<Longrightarrow> (\<And>c. P c \<Longrightarrow> Q c) \<Longrightarrow> issues Q m"
  unfolding issues_def list_all_iff by blast

lemmas issues_intros = issues_return issues_lift issues_modeler_call issues_bind
  issues_get_bind issues_then issues_when issues_for

lemma issues_input_chip_info: "issues P (input_chip_info q name)"
  unfolding input_chip_info_def
  by (intro issues_then issues_when issues_modify) simp_all

lemma issues_append_perfE: "issues P (append_perfE name)"
  unfolding append_perfE_def by (intro issues_modify) simp

lemma issues_new_calls: "issues P m \<Longrightarrow> c \<in> set (new_calls s (snd (m s))) \<Longrightarrow> P c"
  using issuesD [of P m s] by (auto simp: new_calls_def list_all_iff)

lemma issues_if: "(b \<Longrightarrow> issues P m) \<Longrightarrow> (\<not> b \<Longrightarrow> issues P n) \<Longrightarrow> issues P (if b then m else n)"
  by simp

lemma issues_case_prod: "(\<And>a b. issues P (f a b)) \<Longrightarrow> issues P (case_prod f x)"
  by (cases x) simp

lemma issues_lift_bind: "(\<And>x. r = Inr x \<Longrightarrow> issues P (f x)) \<Longrightarrow> issues P (bind_a (lift_a r) f)"
  by (cases r) (simp_all add: issues_def bind_a_def lift_a_def)

lemma issues_fillet_step:
  "(\<And>rad idxs. 0 < qf \<Longrightarrow> rad = parse_units env qf \<Longrightarrow>
      idxs = good_fillet_idxs pts rad (PRECISION env) cl \<Longrightarrow> idxs \<noteq> [] \<Longrightarrow> P (Fillet rad idxs ob))
   \<Longrightarrow> issues P (fillet_step env qf pts cl ob)"
  unfolding fillet_step_def Let_def
  by (simp add: issues_return issues_then issues_modeler_call)

lemmas issues_struct = issues_lift_bind issues_get_bind issues_bind issues_then issues_when
  issues_for issues_if issues_case_prod issues_return issues_input_chip_info issues_append_perfE

lemma exterior_Inr: "exterior g = Inr ext \<Longrightarrow> \<exists>ints. g = Polygon ext ints"
  by (cases g) (simp_all add: exterior_def)

lemma line_coords_Inr: "line_coords g = Inr cs \<Longrightarrow> g = LineString cs"
  by (cases g) (simp_all add: line_coords_def)

lemma poly_fillet_ok: "issues (fillet_ok env q) (render_element_poly env q)"
  unfolding render_element_poly_def Let_def
  apply (intro issues_struct issues_fillet_step issues_modeler_call)
  apply (auto simp: fillet_ok_def row_points_def row_closed_def dest!: exterior_Inr)
  done

lemma path_fillet_ok: "issues (fillet_ok env q) (render_element_path env q)"
  unfolding render_element_path_def Let_def
  apply (intro issues_struct issues_fillet_step issues_modeler_call)
  apply (auto simp: fillet_ok_def row_points_def row_closed_def dest!: line_coords_Inr)
  done

text \<open>
  C10. In \<open>render_element_poly\<close> and in \<open>render_element_path\<close>, \<^verbatim>\<open>_fillet\<close> is called only when
  the fillet radius of the row, rounded to 7 digits, is positive and \<open>good_fillet_idxs\<close>
  returned a non-empty list: the call carries that list and the rounded radius after
  \<^verbatim>\<open>parse_units\<close>, which is positive as the unit conversion keeps positive numbers
  positive.
\<close>

theorem fillet_only_when_guarded:
  assumes "c \<in> set (new_calls s (snd (render_element_poly env q s))) \<or>
           c \<in> set (new_calls s (snd (render_element_path env q s)))"
    and "c = Fillet rad idxs ob"
  shows "0 < py_round (fillet q) 7 \<and> idxs \<noteq> [] \<and>
         idxs = good_fillet_idxs (row_points env q) rad (PRECISION env) (row_closed q) \<and>
         rad = parse_units env (py_round (fillet q) 7) \<and>
         ((\<forall>x. 0 < x \<longrightarrow> 0 < parse_units env x) \<longrightarrow> 0 < rad)"
proof -
  have "fillet_ok env q c"
    using assms(1) issues_new_calls [OF poly_fillet_ok] issues_new_calls [OF path_fillet_ok]
    by blast
  then have "fillet_ok env q (Fillet rad idxs ob)" using assms(2) by simp
  then show ?thesis by (auto simp: fillet_ok_def)
qed

lemmas action_defs = return_a_def bind_a_def then_a_def lift_a_def get_a_def modify_a_def
  when_a_def modeler_call_def

lemma upt5: "[0..<5] = [0, 1, 2, 3, 4]"
  by (simp add: upt_rec)

lemma example_good: "good_fillet_idxs [(0, 0), (1, 0), (1, 1), (0, 1), (0, 0)] (1 / 4) 9 True = [1, 2, 3]"
  by (simp add: good_fillet_idxs_def bad_fillet_idxs_def toggle_numbers_def upt5
      get_distance_def py_round_def round_half_even_def)

lemma example_round: "py_round (1 / 4) 7 = 1 / 4"
  by (simp add: py_round_def round_half_even_def)

lemma example_name: "''Q'' @ str_int 1 @ NAME_DELIM @ get_clean_name ''pad'' = ''Q1_pad''"
  by (simp add: str_int_def NAME_DELIM_def get_clean_name_def is_name_char_def is_name_start_def
      is_letter_def is_digit_def)

lemma example_poly_run:
  "render_element_poly example_env example_row empty_state =
     (Inr (), \<lparr>chip_subtract_dict = [(''main'', {''Q1_pad''})], assign_perfE = [],
        calls = [Draw_polyline [(0, 0, 0), (1, 0, 0), (1, 1, 0), (0, 1, 0)] True,
                 Rename 0 ''Q1_pad'',
                 Fillet (1 / 4) [1, 2, 3] 1]\<rparr>)"
  using example_name
  by (simp add: render_element_poly_def example_env_def example_row_def empty_state_def
      action_defs fillet_step_def input_chip_info_def append_perfE_def exterior_def interiors_def
      parse_points_def example_good example_round Let_def)

lemma propagatesI:
  "(\<And>s. \<exists>new. calls (snd (m s)) = calls s @ new \<and>
        (\<forall>pre c post e. new = pre @ c # post \<and> modeler env (calls s @ pre) c = Inl e
            \<longrightarrow> post = [] \<and> fst (m s) = Inl e)) \<Longrightarrow> propagates env m"
  by (simp add: propagates_def)

lemma propagatesD:
  "propagates env m \<Longrightarrow> \<exists>new. calls (snd (m s)) = calls s @ new \<and>
        (\<forall>pre c post e. new = pre @ c # post \<and> modeler env (calls s @ pre) c = Inl e
            \<longrightarrow> post = [] \<and> fst (m s) = Inl e)"
  by (simp add: propagates_def)

lemma propagates_return: "propagates env (return_a x)"
  by (simp add: propagates_def return_a_def)

lemma propagates_lift: "propagates env (lift_a r)"
  by (simp add: propagates_def lift_a_def)

lemma propagates_modify: "(\<And>s. calls (f s) = calls s) \<Longrightarrow> propagates env (modify_a f)"
  by (simp add: propagates_def modify_a_def)

lemma propagates_modeler_call: "propagates env (modeler_call env c)"
  by (auto simp: propagates_def modeler_call_def Cons_eq_append_conv)

lemma split_call:
  assumes "n1 @ n2 = pre @ c # post"
  shows "(\<exists>us. n1 = pre @ c # us \<and> post = us @ n2) \<or> (\<exists>us. pre = n1 @ us \<and> n2 = us @ c # post)"
  using assms by (auto simp: append_eq_append_conv2 append_eq_Cons_conv)

lemma propagates_bind:
  assumes m: "propagates env m" and f: "\<And>x. propagates env (f x)"
  shows "propagates env (bind_a m f)"
proof (rule propagatesI)
  fix s
  obtain r s1 where ms: "m s = (r, s1)" by (cases "m s")
  from propagatesD [OF m, of s] ms obtain n1 where
    n1: "calls s1 = calls s @ n1"
    and p1: "\<And>pre c post e. n1 = pre @ c # post \<Longrightarrow> modeler env (calls s @ pre) c = Inl e
               \<Longrightarrow> post = [] \<and> r = Inl e"
    by auto
  show "\<exists>new. calls (snd (bind_a m f s)) = calls s @ new \<and>
        (\<forall>pre c post e. new = pre @ c # post \<and> modeler env (calls s @ pre) c = Inl e
            \<longrightarrow> post = [] \<and> fst (bind_a m f s) = Inl e)"
  proof (cases r)
    case (Inl e0)
    then have b: "bind_a m f s = (Inl e0, s1)" using ms by (simp add: bind_a_def)
    show ?thesis unfolding b using n1 p1 Inl by auto
  next
    case (Inr x)
    then have b: "bind_a m f s = f x s1" using ms by (simp add: bind_a_def)
    from propagatesD [OF f, of x s1] obtain n2 where
      n2: "calls (snd (f x s1)) = calls s1 @ n2"
      and p2: "\<And>pre c post e. n2 = pre @ c # post \<Longrightarrow> modeler env (calls s1 @ pre) c = Inl e
               \<Longrightarrow> post = [] \<and> fst (f x s1) = Inl e"
      by auto
    have "calls (snd (bind_a m f s)) = calls s @ (n1 @ n2)" using b n1 n2 by simp
    moreover have "post = [] \<and> fst (bind_a m f s) = Inl e"
      if eq: "n1 @ n2 = pre @ c # post" and md: "modeler env (calls s @ pre) c = Inl e"
      for pre c post e
    proof -
      from split_call [OF eq] show ?thesis
      proof
        assume "\<exists>us. n1 = pre @ c # us \<and> post = us @ n2"
        then obtain us where "n1 = pre @ c # us" by blast
        from p1 [OF this md] Inr show ?thesis by simp
      next
        assume "\<exists>us. pre = n1 @ us \<and> n2 = us @ c # post"
        then obtain us where us: "pre = n1 @ us" "n2 = us @ c # post" by blast
        have "modeler env (calls s1 @ us) c = Inl e" using md us(1) n1 by simp
        from p2 [OF us(2) this] show ?thesis using b by simp
      qed
    qed
    ultimately show ?thesis by blast
  qed
qed

lemma propagates_get_bind: "(\<And>x. propagates env (f x)) \<Longrightarrow> propagates env (bind_a get_a f)"
  by (simp add: propagates_def bind_a_def get_a_def)

lemma propagates_then: "propagates env m \<Longrightarrow> propagates env n \<Longrightarrow> propagates env (then_a m n)"
  by (simp add: then_a_def propagates_bind)

lemma propagates_when: "(b \<Longrightarrow> propagates env m) \<Longrightarrow> propagates env (when_a b m)"
  by (simp add: when_a_def propagates_return)

lemma propagates_for: "(\<And>x. propagates env (f x)) \<Longrightarrow> propagates env (for_a xs f)"
  by (induction xs) (simp_all add: propagates_return propagates_then)

lemma propagates_if:
  "(b \<Longrightarrow> propagates env m) \<Longrightarrow> (\<not> b \<Longrightarrow> propagates env n) \<Longrightarrow> propagates env (if b then m else n)"
  by simp

lemma propagates_case_prod: "(\<And>a b. propagates env (f a b)) \<Longrightarrow> propagates env (case_prod f x)"
  by (cases x) simp

lemma propagates_input_chip_info: "propagates env (input_chip_info q name)"
  unfolding input_chip_info_def
  by (intro propagates_then propagates_when propagates_modify) simp_all

lemma propagates_append_perfE: "propagates env (append_perfE name)"
  unfolding append_perfE_def by (intro propagates_modify) simp

lemma propagates_fillet_step: "propagates env (fillet_step env qf pts cl ob)"
  unfolding fillet_step_def Let_def
  by (simp add: propagates_return propagates_then propagates_modeler_call)

lemmas propagates_struct = propagates_get_bind propagates_bind propagates_then propagates_when
  propagates_for propagates_if propagates_case_prod propagates_return propagates_lift
  propagates_modeler_call propagates_input_chip_info propagates_append_perfE
  propagates_fillet_step

lemma propagates_render_element_poly: "propagates env (render_element_poly env q)"
  unfolding render_element_poly_def Let_def by (intro propagates_struct)

lemma propagates_render_element_path: "propagates env (render_element_path env q)"
  unfolding render_element_path_def Let_def by (intro propagates_struct)

lemma propagates_render_element: "propagates env (render_element env q)"
  unfolding render_element_def
  by (cases "geometry q")
     (simp_all add: propagates_render_element_poly propagates_render_element_path propagates_return)

lemma propagates_render_components: "propagates env (render_components env t sel)"
  unfolding render_components_def Let_def
  by (intro propagates_struct propagates_render_element)

lemma propagates_render_tables: "propagates env (render_tables env sel)"
  unfolding render_tables_def by (intro propagates_for propagates_render_components)

lemma propagates_render_chips: "propagates env (render_chips env)"
  unfolding render_chips_def Let_def by (intro propagates_struct)

lemma propagates_subtract_from_ground: "propagates env (subtract_from_ground env)"
  unfolding subtract_from_ground_def by (intro propagates_struct)

lemma propagates_metallize: "propagates env (metallize env)"
  unfolding metallize_def by (intro propagates_struct)

lemma propagates_render_design: "propagates env (render_design env sel)"
  unfolding render_design_def
  by (intro propagates_then propagates_modify propagates_render_tables propagates_render_chips
      propagates_subtract_from_ground propagates_metallize) simp

lemma element_calls_poly: "issues is_element_call (render_element_poly env q)"
  unfolding render_element_poly_def Let_def
  by (intro issues_struct issues_fillet_step issues_modeler_call)
     (simp_all add: is_element_call_def)

lemma element_calls_path: "issues is_element_call (render_element_path env q)"
  unfolding render_element_path_def Let_def
  by (intro issues_struct issues_fillet_step issues_modeler_call)
     (simp_all add: is_element_call_def)

lemma element_calls_element: "issues is_element_call (render_element env q)"
  unfolding render_element_def
  by (cases "geometry q") (simp_all add: element_calls_poly element_calls_path issues_return)

lemma element_calls_components: "issues is_element_call (render_components env t sel)"
  unfolding render_components_def Let_def
  by (intro issues_struct element_calls_element)

lemma element_calls_tables: "issues is_element_call (render_tables env sel)"
  unfolding render_tables_def by (intro issues_for element_calls_components)

lemma chip_calls_chips: "issues is_chip_call (render_chips env)"
  unfolding render_chips_def Let_def
  by (intro issues_struct issues_modeler_call) (simp_all add: is_chip_call_def)

lemma ground_calls_subtract: "issues is_ground_subtract (subtract_from_ground env)"
  unfolding subtract_from_ground_def
  by (intro issues_struct issues_modeler_call)
     (simp add: is_ground_subtract_def list_all_iff)

lemma metallize_run:
  "\<exists>r. metallize env s = (r, s\<lparr>calls := calls s @ [Assign_perfect_E (assign_perfE s)]\<rparr>)"
  by (cases "modeler env (calls s) (Assign_perfect_E (assign_perfE s))")
     (simp_all add: metallize_def action_defs)

lemma run_cases:
  obtains e s1 where "m s = (Inl e, s1)" | s1 where "m s = (Inr (), s1)"
  by (metis old.unit.exhaust sum.exhaust_sel surj_pair)

lemma then_a_Inl: "m s = (Inl e, s1) \<Longrightarrow> then_a m n s = (Inl e, s1)"
  by (simp add: then_a_def bind_a_def)

lemma then_a_Inr: "m s = (Inr x, s1) \<Longrightarrow> then_a m n s = n s1"
  by (simp add: then_a_def bind_a_def)

lemma render_design_reset:
  "render_design env sel s =
     then_a (render_tables env sel)
       (then_a (render_chips env) (then_a (subtract_from_ground env) (metallize env)))
       (s\<lparr>chip_subtract_dict := [], assign_perfE := []\<rparr>)"
  by (simp add: render_design_def then_a_def bind_a_def modify_a_def)

text \<open>
  C3. One call of \<open>render_design\<close> runs its phases in a fixed order: the calls it issues are
  those of rendering the elements of all selected components, then those of rendering the
  chips, then the subtractions from the ground planes, and the metallizing call at the very
  end. A later phase issues a call only when every earlier phase has returned normally; in
  particular no subtraction from a ground plane happens before \<open>render_tables\<close> has rendered
  every component.
\<close>

theorem render_design_order:
  assumes run: "render_design env sel s = (r, s')"
  shows "\<exists>t1 t2 t3 t4 s1 s2 s3.
           calls s' = calls s @ t1 @ t2 @ t3 @ t4 \<and>
           list_all is_element_call t1 \<and> list_all is_chip_call t2 \<and>
           list_all is_ground_subtract t3 \<and> list_all is_metallize t4 \<and>
           (t2 @ t3 @ t4 \<noteq> [] \<longrightarrow>
              completes (render_tables env sel)
                (s\<lparr>chip_subtract_dict := [], assign_perfE := []\<rparr>) t1 s1) \<and>
           (t3 @ t4 \<noteq> [] \<longrightarrow> completes (render_chips env) s1 t2 s2) \<and>
           (t4 \<noteq> [] \<longrightarrow> completes (subtract_from_ground env) s2 t3 s3 \<and>
              t4 = [Assign_perfect_E (assign_perfE s3)]) \<and>
           (r = Inr () \<longrightarrow> t4 \<noteq> [])"
proof -
  define s0 where "s0 = s\<lparr>chip_subtract_dict := [], assign_perfE := []\<rparr>"
  have c0: "calls s0 = calls s" by (simp add: s0_def)
  let ?rest3 = "then_a (subtract_from_ground env) (metallize env)"
  let ?rest2 = "then_a (render_chips env) ?rest3"
  have rd: "then_a (render_tables env sel) ?rest2 s0 = (r, s')"
    using run by (simp add: render_design_reset s0_def)
  from issuesD [OF element_calls_tables, of env sel s0] obtain t1 where
    t1: "calls (snd (render_tables env sel s0)) = calls s @ t1" "list_all is_element_call t1"
    using c0 by auto
  show ?thesis
  proof (cases rule: run_cases [of "render_tables env sel" s0])
    case (1 e s1)
    then have "r = Inl e" "s' = s1" using rd then_a_Inl [where m="render_tables env sel" and s=s0 and n="?rest2", OF 1] by simp_all
    then have "calls s' = calls s @ t1 @ [] @ [] @ []" using t1 1 by simp
    then show ?thesis using t1(2) \<open>r = Inl e\<close>
      by (intro exI [of _ t1] exI [of _ "[]"] exI [of _ s]) simp
  next
    case (2 s1)
    have d1: "completes (render_tables env sel) s0 t1 s1"
      using 2 t1 c0 by (simp add: completes_def)
    have cs1: "calls s1 = calls s @ t1" using 2 t1 by simp
    have rd2: "?rest2 s1 = (r, s')" using rd then_a_Inr [where m="render_tables env sel" and s=s0 and n="?rest2", OF 2] by simp
    from issuesD [OF chip_calls_chips, of env s1] obtain t2 where
      t2: "calls (snd (render_chips env s1)) = calls s1 @ t2" "list_all is_chip_call t2"
      by auto
    show ?thesis
    proof (cases rule: run_cases [of "render_chips env" s1])
      case (1 e s2)
      then have "r = Inl e" "s' = s2" using rd2 then_a_Inl [where m="render_chips env" and s=s1 and n="?rest3", OF 1] by simp_all
      then have "calls s' = calls s @ t1 @ t2 @ [] @ []" using t2 1 cs1 by simp
      then show ?thesis using t1(2) t2(2) \<open>r = Inl e\<close> d1 [unfolded s0_def]
        by (intro exI [of _ t1] exI [of _ t2] exI [of _ "[]"] exI [of _ s1] exI [of _ s]) simp
    next
      case (2 s2)
      have d2: "completes (render_chips env) s1 t2 s2"
        using 2 t2 by (simp add: completes_def)
      have cs2: "calls s2 = calls s @ t1 @ t2" using 2 t2 cs1 by simp
      have rd3: "?rest3 s2 = (r, s')" using rd2 then_a_Inr [where m="render_chips env" and s=s1 and n="?rest3", OF 2] by simp
      from issuesD [OF ground_calls_subtract, of env s2] obtain t3 where
        t3: "calls (snd (subtract_from_ground env s2)) = calls s2 @ t3"
          "list_all is_ground_subtract t3"
        by auto
      show ?thesis
      proof (cases rule: run_cases [of "subtract_from_ground env" s2])
        case (1 e s3)
        then have "r = Inl e" "s' = s3" using rd3 then_a_Inl [where m="subtract_from_ground env" and s=s2 and n="metallize env", OF 1] by simp_all
        then have "calls s' = calls s @ t1 @ t2 @ t3 @ []" using t3 1 cs2 by simp
        then show ?thesis using t1(2) t2(2) t3(2) \<open>r = Inl e\<close> d1 [unfolded s0_def] d2
          by (intro exI [of _ t1] exI [of _ t2] exI [of _ t3] exI [of _ "[]"]
                exI [of _ s1] exI [of _ s2] exI [of _ s]) simp
      next
        case (2 s3)
        have d3: "completes (subtract_from_ground env) s2 t3 s3"
          using 2 t3 by (simp add: completes_def)
        have cs3: "calls s3 = calls s @ t1 @ t2 @ t3" using 2 t3 cs2 by simp
        have rd4: "metallize env s3 = (r, s')" using rd3 then_a_Inr [where m="subtract_from_ground env" and s=s2 and n="metallize env", OF 2] by simp
        from metallize_run [of env s3] rd4
        have "s' = s3\<lparr>calls := calls s3 @ [Assign_perfect_E (assign_perfE s3)]\<rparr>" by auto
        then have "calls s' = calls s @ t1 @ t2 @ t3 @ [Assign_perfect_E (assign_perfE s3)]"
          using cs3 by simp
        then show ?thesis using t1(2) t2(2) t3(2) d1 [unfolded s0_def] d2 d3
          by (intro exI [of _ t1] exI [of _ t2] exI [of _ t3]
                exI [of _ "[Assign_perfect_E (assign_perfE s3)]"]
                exI [of _ s1] exI [of _ s2] exI [of _ s3]) (simp add: is_metallize_def)
      qed
    qed
  qed
qed

text \<open>
  C4. \<open>chip_subtract_dict\<close> and \<open>assign_perfE\<close> are local to one render pass: \<open>render_design\<close>
  starts by emptying both, so what they held before the call (for instance from an earlier
  call) has no effect on the result, the calls issued or the final state.
\<close>

theorem render_design_resets_accumulators:
  "render_design env sel s =
     then_a (render_tables env sel)
       (then_a (render_chips env) (then_a (subtract_from_ground env) (metallize env)))
       (s\<lparr>chip_subtract_dict := [], assign_perfE := []\<rparr>) \<and>
   render_design env sel (s\<lparr>chip_subtract_dict := d, assign_perfE := a\<rparr>) =
     render_design env sel s"
  by (simp add: render_design_reset)

text \<open>
  C9. For a row whose geometry is neither a \<^verbatim>\<open>Polygon\<close> nor a \<^verbatim>\<open>LineString\<close>,
  \<open>render_element\<close> does nothing: it returns normally, issues no call on the modeler and
  leaves \<open>chip_subtract_dict\<close> and \<open>assign_perfE\<close> as they are.
\<close>

theorem render_element_other_geometry:
  assumes "geometry qgeom = OtherGeom"
  shows "render_element env qgeom s = (Inr (), s)"
  using assms by (simp add: render_element_def return_a_def)

lemma example_tables_run:
  "render_tables example_env None empty_state =
     (Inr (), \<lparr>chip_subtract_dict = [(''main'', {''Q1_pad''})], assign_perfE = [],
        calls = [Draw_polyline [(0, 0, 0), (1, 0, 0), (1, 1, 0), (0, 1, 0)] True,
                 Rename 0 ''Q1_pad'',
                 Fillet (1 / 4) [1, 2, 3] 1]\<rparr>)"
proof -
  have g: "geometry example_row = Polygon [(0, 0), (1, 0), (1, 1), (0, 1), (0, 0)] []"
    by (simp add: example_row_def)
  have e: "render_element example_env example_row = render_element_poly example_env example_row"
    by (simp add: render_element_def g)
  have t: "tables example_env ''poly'' = Some [example_row]" "element_types example_env = [''poly'']"
    by (simp_all add: example_env_def)
  show ?thesis
    by (simp add: render_tables_def render_components_def t e action_defs example_poly_run)
qed

lemma example_run: "render_design example_env None empty_state = (Inr (), example_final)"
proof -
  have r: "empty_state\<lparr>chip_subtract_dict := [], assign_perfE := []\<rparr> = empty_state"
    by (simp add: empty_state_def)
  show ?thesis
    unfolding render_design_reset r
    by (simp add: then_a_def bind_a_def example_tables_run)
      (simp add: render_chips_def subtract_from_ground_def metallize_def action_defs
        append_perfE_def example_env_def example_final_def Let_def)
qed

theorem render_design_order_witness:
  "render_design example_env None empty_state = (Inr (), example_final) \<and>
   (\<exists>t1 t2 t3 t4 s1 s2 s3.
           calls example_final = calls empty_state @ t1 @ t2 @ t3 @ t4 \<and>
           list_all is_element_call t1 \<and> list_all is_chip_call t2 \<and>
           list_all is_ground_subtract t3 \<and> list_all is_metallize t4 \<and>
           (t2 @ t3 @ t4 \<noteq> [] \<longrightarrow>
              completes (render_tables example_env None)
                (empty_state\<lparr>chip_subtract_dict := [], assign_perfE := []\<rparr>) t1 s1) \<and>
           (t3 @ t4 \<noteq> [] \<longrightarrow> completes (render_chips example_env) s1 t2 s2) \<and>
           (t4 \<noteq> [] \<longrightarrow> completes (subtract_from_ground example_env) s2 t3 s3 \<and>
              t4 = [Assign_perfect_E (assign_perfE s3)]) \<and>
           (Inr () = (Inr () :: exn + unit) \<longrightarrow> t4 \<noteq> []))"
  using render_design_order [OF example_run] example_run by blast

text \<open>
  C7. No rendering method catches or transforms an exception: in \<open>render_design\<close>,
  \<open>render_tables\<close>, \<open>render_components\<close>, \<open>render_element\<close>, \<open>render_element_poly\<close>,
  \<open>render_element_path\<close>, \<open>render_chips\<close>, \<open>subtract_from_ground\<close> and \<open>metallize\<close>, an exception
  raised by a call on the modeler ends the method, which raises that same exception.
\<close>

theorem exceptions_propagate:
  "propagates env (render_design env sel) \<and>
   propagates env (render_tables env sel) \<and>
   propagates env (render_components env table_type sel) \<and>
   propagates env (render_element env q) \<and>
   propagates env (render_element_poly env q) \<and>
   propagates env (render_element_path env q) \<and>
   propagates env (render_chips env) \<and>
   propagates env (subtract_from_ground env) \<and>
   propagates env (metallize env)"
  by (intro conjI propagates_render_design propagates_render_tables propagates_render_components
      propagates_render_element propagates_render_element_poly propagates_render_element_path
      propagates_render_chips propagates_subtract_from_ground propagates_metallize)

lemma failing_poly_run:
  "render_element_poly failing_env example_row empty_state =
     (Inl (External 7), \<lparr>chip_subtract_dict = [], assign_perfE = [],
        calls = [Draw_polyline [(0, 0, 0), (1, 0, 0), (1, 1, 0), (0, 1, 0)] True,
                 Rename 0 ''Q1_pad'',
                 Fillet (1 / 4) [1, 2, 3] 1]\<rparr>)"
  using example_name
  by (simp add: render_element_poly_def failing_env_def example_env_def example_row_def
      empty_state_def action_defs fillet_step_def exterior_def
      parse_points_def example_good example_round Let_def)

lemma failing_run:
  "render_design failing_env None empty_state =
     (Inl (External 7), \<lparr>chip_subtract_dict = [], assign_perfE = [],
        calls = [Draw_polyline [(0, 0, 0), (1, 0, 0), (1, 1, 0), (0, 1, 0)] True,
                 Rename 0 ''Q1_pad'',
                 Fillet (1 / 4) [1, 2, 3] 1]\<rparr>)"
proof -
  have g: "geometry example_row = Polygon [(0, 0), (1, 0), (1, 1), (0, 1), (0, 0)] []"
    by (simp add: example_row_def)
  have e: "render_element failing_env example_row = render_element_poly failing_env example_row"
    by (simp add: render_element_def g)
  have t: "tables failing_env ''poly'' = Some [example_row]" "element_types failing_env = [''poly'']"
    by (simp_all add: failing_env_def example_env_def)
  have r: "empty_state\<lparr>chip_subtract_dict := [], assign_perfE := []\<rparr> = empty_state"
    by (simp add: empty_state_def)
  show ?thesis
    unfolding render_design_reset r
    by (simp add: render_tables_def render_components_def t e action_defs failing_poly_run)
qed

theorem exceptions_propagate_witness:
  "calls (snd (render_design failing_env None empty_state)) =
     calls empty_state @
       [Draw_polyline [(0, 0, 0), (1, 0, 0), (1, 1, 0), (0, 1, 0)] True, Rename 0 ''Q1_pad''] @
       [Fillet (1 / 4) [1, 2, 3] 1] \<and>
   modeler failing_env
     (calls empty_state @
       [Draw_polyline [(0, 0, 0), (1, 0, 0), (1, 1, 0), (0, 1, 0)] True, Rename 0 ''Q1_pad''])
     (Fillet (1 / 4) [1, 2, 3] 1) = Inl (External 7) \<and>
   fst (render_design failing_env None empty_state) = Inl (External 7)"
proof -
  let ?pre = "[Draw_polyline [(0, 0, 0), (1, 0, 0), (1, 1, 0), (0, 1, 0)] True, Rename 0 ''Q1_pad'']"
  let ?c = "Fillet (1 / 4) [1, 2, 3] 1"
  have tr: "calls (snd (render_design failing_env None empty_state)) = calls empty_state @ ?pre @ [?c]"
    unfolding failing_run by (simp add: empty_state_def)
  have md: "modeler failing_env (calls empty_state @ ?pre) ?c = Inl (External 7)"
    by (simp add: failing_env_def example_env_def empty_state_def)
  have "propagates failing_env (render_design failing_env None)"
    using exceptions_propagate [of failing_env None] by blast
  from propagatesD [OF this, of empty_state] obtain new where
    new: "calls (snd (render_design failing_env None empty_state)) = calls empty_state @ new"
    and p: "\<And>pre c post e. new = pre @ c # post \<Longrightarrow>
              modeler failing_env (calls empty_state @ pre) c = Inl e \<Longrightarrow>
              fst (render_design failing_env None empty_state) = Inl e"
    by blast
  have "new = ?pre @ ?c # []" using new tr by simp
  from p [OF this md] tr md show ?thesis by blast
qed

theorem render_element_other_geometry_witness:
  "geometry (example_row\<lparr>geometry := OtherGeom\<rparr>) = OtherGeom \<and>
   render_element example_env (example_row\<lparr>geometry := OtherGeom\<rparr>) empty_state =
     (Inr (), empty_state)"
  using render_element_other_geometry [of "example_row\<lparr>geometry := OtherGeom\<rparr>" example_env empty_state] by simp

theorem fillet_only_when_guarded_witness:
  "Fillet (1 / 4) [1, 2, 3] 1 \<in>
     set (new_calls empty_state (snd (render_element_poly example_env example_row empty_state))) \<and>
   0 < py_round (fillet example_row) 7 \<and> (0::real) < 1 / 4 \<and>
   [1, 2, 3] = good_fillet_idxs (row_points example_env example_row) (1 / 4)
                 (PRECISION example_env) (row_closed example_row)"
proof -
  have a: "Fillet (1 / 4) [1, 2, 3] 1 \<in>
     set (new_calls empty_state (snd (render_element_poly example_env example_row empty_state)))"
    unfolding example_poly_run by (simp add: new_calls_def empty_state_def)
  have b: "\<forall>x. 0 < x \<longrightarrow> 0 < parse_units example_env x"
    by (simp add: example_env_def)
  from fillet_only_when_guarded [OF disjI1 [OF a] refl] a b show ?thesis by blast
qed

end
